theory Spec2Isabelle
  imports Main "HOL-Library.Word"
begin

section \<open>The ACS under-5 population script (get_acs_api_data.py)\<close>

text \<open>
  The script is one straight line of statements: fetch a JSON table from the Census API,
  load it into a pandas DataFrame, rename the columns from the first row, convert the first
  two columns to numbers, add them into a new column, drop three columns and write a CSV
  file. Each statement is embedded as one function below; a statement that can raise returns
  \<open>error + 'a\<close> and the first error ends the run, as the unhandled exception does.

  What the embedding covers. The payload is a list of rows of strings (the API's JSON array
  of arrays of strings). A DataFrame is kept column by column, as pandas keeps it: an ordered
  list of labelled columns and the row index. Numeric cells are 64-bit integers (pandas'
  int64), so the sum of two cells wraps around as numpy's does. The reading of one string cell
  as an int64 is a parameter \<open>num\<close> of the embedding: it returns the value, or None where
  \<open>pd.to_numeric\<close> does not read an int64. An empty cell is read as a missing value (NaN),
  as pandas does. The query builder (lines 14-19) and the HTTP request itself are not
  embedded: a run starts from the response.

  What it leaves out. Cells that pandas reads as a float64 other than NaN or as a uint64 (a
  decimal point, an exponent, an integer beyond 63 bits) have no value here, and a column
  that mixes missing values with numbers is a float64 column: such runs end in
  \<open>Unmodelled\<close>. pandas pads the
  short rows of a ragged payload with missing values and treats repeated column labels as a
  group; the embedding reads a cell by position and a column by the first label that
  matches, which is what pandas does only on a rectangular payload with distinct labels.
  The theorems about table contents therefore assume \<open>well_formed\<close>, defined below. Line ends
  are those of a POSIX system (\<open>os.linesep\<close> is a line feed), and of the file system only the
  existence of the target directory is looked at.
\<close>

subsection \<open>Values, labels, errors\<close>

datatype cell = Str string | Int64 "64 word" | NaN

datatype label = IntL int | StrL string | NaNL

text \<open>
  The exceptions that can end the run. \<open>Unmodelled\<close> is none of them: it marks a run in which
  \<open>pd.to_numeric\<close> builds a float64 or uint64 column that the cells above cannot hold (any
  such column but one of missing values only). Nothing is stated about such a run.
\<close>

datatype error =
    NameError | IndexError | KeyError | ValueError | TypeError | JSONDecodeError | OSError
  | Unmodelled

type_synonym 'a result = "error + 'a"

type_synonym series = "cell list"

record dataframe =
  cols :: "(label \<times> series) list"
  index :: "nat list"

type_synonym numeric = "string \<Rightarrow> 64 word option"

definition rbind :: "'a result \<Rightarrow> ('a \<Rightarrow> 'b result) \<Rightarrow> 'b result" where
  "rbind m f = (case m of Inl e \<Rightarrow> Inl e | Inr x \<Rightarrow> f x)"

fun traverse :: "('a \<Rightarrow> 'b result) \<Rightarrow> 'a list \<Rightarrow> 'b list result" where
  "traverse f [] = Inr []"
| "traverse f (x # xs) =
     (case f x of Inl e \<Rightarrow> Inl e
      | Inr y \<Rightarrow> (case traverse f xs of Inl e \<Rightarrow> Inl e | Inr ys \<Rightarrow> Inr (y # ys)))"

definition labels :: "dataframe \<Rightarrow> label list" where
  "labels df = map fst (cols df)"

definition nrows :: "dataframe \<Rightarrow> nat" where
  "nrows df = length (index df)"

subsection \<open>Lines 14-15: the variable mapping\<close>

definition variables :: "(string \<times> string) list" where
  "variables = [(''B01001_003E'', ''pop_under5_male''),
                (''B01001_027E'', ''pop_under5_female'')]"

subsection \<open>Lines 23-25: the response and the status check\<close>

text \<open>
  \<open>json_body\<close> is what \<open>json.loads(response.content.decode('utf-8'))\<close> returns for the
  response's bytes, None where decoding or parsing raises. The name \<open>data\<close> is bound only
  when the status code is 200: \<open>fetch\<close> returns the binding, None for the unbound name.
\<close>

record response =
  status_code :: int
  json_body :: "string list list option"

definition fetch :: "response \<Rightarrow> string list list option result" where
  "fetch r =
     (if status_code r = 200
      then (case json_body r of None \<Rightarrow> Inl JSONDecodeError | Some d \<Rightarrow> Inr (Some d))
      else Inr None)"

subsection \<open>Line 28: pd.DataFrame(data)\<close>

definition ncols_of :: "string list list \<Rightarrow> nat" where
  "ncols_of d = foldr (\<lambda>r n. max (length r) n) d 0"

definition DataFrame :: "string list list \<Rightarrow> dataframe" where
  "DataFrame d =
     \<lparr>cols = map (\<lambda>j. (IntL (int j), map (\<lambda>r. Str (r ! j)) d)) [0..<ncols_of d],
      index = [0..<length d]\<rparr>"

subsection \<open>Line 29: rename from the first row, drop it, rename by the mapping\<close>

definition iloc :: "dataframe \<Rightarrow> nat \<Rightarrow> (label \<times> cell) list result" where
  "iloc df i =
     (if i < nrows df then Inr (map (\<lambda>(l, c). (l, c ! i)) (cols df)) else Inl IndexError)"

fun label_of_cell :: "cell \<Rightarrow> label" where
  "label_of_cell (Str s) = StrL s"
| "label_of_cell (Int64 w) = IntL (sint w)"
| "label_of_cell NaN = NaNL"

definition series_mapper :: "(label \<times> cell) list \<Rightarrow> label \<Rightarrow> label option" where
  "series_mapper s = map_of (map (\<lambda>(l, c). (l, label_of_cell c)) s)"

definition dict_mapper :: "(string \<times> string) list \<Rightarrow> label \<Rightarrow> label option" where
  "dict_mapper kvs = map_of (map (\<lambda>(k, v). (StrL k, StrL v)) kvs)"

definition rename_columns :: "(label \<Rightarrow> label option) \<Rightarrow> dataframe \<Rightarrow> dataframe" where
  "rename_columns m df =
     df\<lparr>cols := map (\<lambda>(l, c). (case m l of None \<Rightarrow> l | Some l' \<Rightarrow> l', c)) (cols df)\<rparr>"

definition keep_rows :: "nat list \<Rightarrow> nat list \<Rightarrow> 'a list \<Rightarrow> 'a list" where
  "keep_rows ix ls c = map snd (filter (\<lambda>(i, v). i \<notin> set ls) (zip ix c))"

definition drop_rows :: "nat list \<Rightarrow> dataframe \<Rightarrow> dataframe result" where
  "drop_rows ls df =
     (if set ls \<subseteq> set (index df)
      then Inr \<lparr>cols = map (\<lambda>(l, c). (l, keep_rows (index df) ls c)) (cols df),
                index = filter (\<lambda>i. i \<notin> set ls) (index df)\<rparr>
      else Inl KeyError)"

subsection \<open>Line 32: the first two columns to numeric\<close>

text \<open>
  What \<open>pd.to_numeric\<close> (with the default \<open>errors='raise'\<close>) does with one string cell:
  \<^item> a cell that pandas reads as an int64 becomes that number (\<open>num\<close> gives it);
  \<^item> the empty string is a missing value: it becomes NaN, and nothing is raised;
  \<^item> a string holding a character that occurs in no numeric literal raises ValueError
    (``Unable to parse string''). The characters of numeric literals are the digits, the
    signs, the point, the exponent letter, white space and the letters of \<open>inf\<close>,
    \<open>infinity\<close> and \<open>nan\<close>; a string with a NUL character is left undecided;
  \<^item> any other string (a float literal, an integer beyond int64, a malformed literal made
    of the characters above) is not described: \<open>Unmodelled\<close>.
\<close>

definition numeric_chars :: "char list" where
  "numeric_chars =
     ''0123456789+-.eE'' @ [CHR 0x20, CHR 0x09, CHR 0x0A, CHR 0x0B, CHR 0x0C, CHR 0x0D] @
     ''infinityaINFINITYA''"

definition rejected :: "string \<Rightarrow> bool" where
  "rejected s \<longleftrightarrow> CHR 0x00 \<notin> set s \<and> \<not> set s \<subseteq> set numeric_chars"

fun to_numeric :: "numeric \<Rightarrow> cell \<Rightarrow> cell result" where
  "to_numeric num (Str s) =
     (case num s of
        Some w \<Rightarrow> Inr (Int64 w)
      | None \<Rightarrow> if s = [] then Inr NaN
                else if rejected s then Inl ValueError
                else Inl Unmodelled)"
| "to_numeric num (Int64 w) = Inr (Int64 w)"
| "to_numeric num NaN = Inr NaN"

text \<open>
  A whole column: pandas walks the cells in order and raises at the first one it rejects,
  whatever the cells before it were; so a rejected cell anywhere in the selected columns ends
  the statement with ValueError. Otherwise the column is int64 when every cell is, and
  float64 when a cell is missing: a float64 column of missing values only is a column of NaN,
  any other float64 column is not described.
\<close>

definition to_numeric_series :: "numeric \<Rightarrow> series \<Rightarrow> series result" where
  "to_numeric_series num c =
     rbind (traverse (to_numeric num) c) (\<lambda>c'.
       if NaN \<in> set c' \<and> set c' \<noteq> {NaN} then Inl Unmodelled else Inr c')"

definition apply_to_numeric :: "numeric \<Rightarrow> label list \<Rightarrow> dataframe \<Rightarrow> dataframe result" where
  "apply_to_numeric num ls df =
     (if Inl ValueError \<in>
           set (map (to_numeric num) (concat (map snd (filter (\<lambda>(l, c). l \<in> set ls) (cols df)))))
      then Inl ValueError
      else rbind (traverse (\<lambda>(l, c). if l \<in> set ls
                                      then rbind (to_numeric_series num c) (\<lambda>c'. Inr (l, c'))
                                      else Inr (l, c))
                           (cols df))
                 (\<lambda>cs. Inr (df\<lparr>cols := cs\<rparr>)))"

subsection \<open>Line 35: the derived column\<close>

definition getitem :: "dataframe \<Rightarrow> label \<Rightarrow> series result" where
  "getitem df l = (case map_of (cols df) l of None \<Rightarrow> Inl KeyError | Some c \<Rightarrow> Inr c)"

fun add_cell :: "cell \<Rightarrow> cell \<Rightarrow> cell result" where
  "add_cell (Int64 a) (Int64 b) = Inr (Int64 (a + b))"
| "add_cell (Str a) (Str b) = Inr (Str (a @ b))"
| "add_cell (Int64 a) (Str b) = Inl TypeError"
| "add_cell (Str a) (Int64 b) = Inl TypeError"
| "add_cell NaN (Int64 b) = Inr NaN"
| "add_cell (Int64 a) NaN = Inr NaN"
| "add_cell NaN NaN = Inr NaN"
| "add_cell NaN (Str b) = Inl TypeError"
| "add_cell (Str a) NaN = Inl TypeError"

definition add_series :: "series \<Rightarrow> series \<Rightarrow> series result" where
  "add_series xs ys = traverse (\<lambda>(x, y). add_cell x y) (zip xs ys)"

definition setitem :: "dataframe \<Rightarrow> label \<Rightarrow> series \<Rightarrow> dataframe" where
  "setitem df l c =
     (if l \<in> set (labels df)
      then df\<lparr>cols := map (\<lambda>(l', c'). if l' = l then (l', c) else (l', c')) (cols df)\<rparr>
      else df\<lparr>cols := cols df @ [(l, c)]\<rparr>)"

subsection \<open>Line 38: drop the columns no longer needed\<close>

definition drop_columns :: "label list \<Rightarrow> dataframe \<Rightarrow> dataframe result" where
  "drop_columns ls df =
     (if set ls \<subseteq> set (labels df)
      then Inr (df\<lparr>cols := filter (\<lambda>(l, c). l \<notin> set ls) (cols df)\<rparr>)
      else Inl KeyError)"

subsection \<open>Lines 41-44: the checks\<close>

text \<open>
  \<open>df.head()\<close>, \<open>df.shape\<close> and \<open>df.dtypes\<close> cannot raise. The built-in \<open>sum\<close> starts from
  the integer 0 and adds each cell: it raises TypeError at the first string cell; a missing
  value makes the sum NaN and raises nothing.
\<close>

fun py_sum :: "cell \<Rightarrow> series \<Rightarrow> cell result" where
  "py_sum acc [] = Inr acc"
| "py_sum acc (c # cs) =
     (case add_cell acc c of Inl e \<Rightarrow> Inl e | Inr acc' \<Rightarrow> py_sum acc' cs)"

subsection \<open>Lines 28-44: the stages in sequence\<close>

definition shape :: "numeric \<Rightarrow> string list list \<Rightarrow> dataframe result" where
  "shape num d =
     (let df = DataFrame d in
      rbind (iloc df 0) (\<lambda>row0.
      rbind (drop_rows [0] (rename_columns (series_mapper row0) df)) (\<lambda>df.
      (let df = rename_columns (dict_mapper variables) df in
       apply_to_numeric num (take 2 (labels df)) df))))"

definition aggregate :: "dataframe \<Rightarrow> dataframe result" where
  "aggregate df =
     rbind (getitem df (StrL ''pop_under5_male'')) (\<lambda>male.
     rbind (getitem df (StrL ''pop_under5_female'')) (\<lambda>female.
     rbind (add_series male female) (\<lambda>total.
     drop_columns [StrL ''state'', StrL ''pop_under5_male'', StrL ''pop_under5_female'']
       (setitem df (StrL ''pop_under5'') total))))"

definition checks :: "dataframe \<Rightarrow> unit result" where
  "checks df =
     rbind (getitem df (StrL ''pop_under5'')) (\<lambda>c.
     rbind (py_sum (Int64 0) c) (\<lambda>s. Inr ()))"

definition transform :: "numeric \<Rightarrow> string list list \<Rightarrow> dataframe result" where
  "transform num d =
     rbind (shape num d) (\<lambda>df.
     rbind (aggregate df) (\<lambda>df.
     rbind (checks df) (\<lambda>u. Inr df)))"

subsection \<open>Line 47: df.to_csv(os.path.join(cwd, "data", "acs_ward_under5_pop.csv"), index = False)\<close>

text \<open>
  The text pandas writes: the column labels as the first record, then one record per row, no
  index field, fields separated by commas, each record ended by a line feed. A field is
  quoted only when it holds the delimiter, the quote character or a line break (csv's
  QUOTE_MINIMAL), its quote characters doubled; a record that is a single empty field is
  written as two quote characters. A missing value is written as the empty field
  (\<open>na_rep\<close> is the empty string).
\<close>

fun show_nat :: "nat \<Rightarrow> string" where
  "show_nat n =
     (if n < 10 then [char_of (48 + n)] else show_nat (n div 10) @ [char_of (48 + n mod 10)])"

declare show_nat.simps [simp del]

definition show_int :: "int \<Rightarrow> string" where
  "show_int i = (if i < 0 then CHR ''-'' # show_nat (nat (- i)) else show_nat (nat i))"

fun cell_text :: "cell \<Rightarrow> string" where
  "cell_text (Str s) = s"
| "cell_text (Int64 w) = show_int (sint w)"
| "cell_text NaN = []"

fun label_text :: "label \<Rightarrow> string" where
  "label_text (StrL s) = s"
| "label_text (IntL i) = show_int i"
| "label_text NaNL = []"

definition needs_quote :: "string \<Rightarrow> bool" where
  "needs_quote s = (set s \<inter> {CHR '','', CHR 0x22, CHR 0x0A, CHR 0x0D} \<noteq> {})"

definition csv_field :: "string \<Rightarrow> string" where
  "csv_field s =
     (if needs_quote s
      then [CHR 0x22] @ concat (map (\<lambda>c. if c = CHR 0x22 then [c, c] else [c]) s) @ [CHR 0x22]
      else s)"

fun join :: "string \<Rightarrow> string list \<Rightarrow> string" where
  "join sep [] = []"
| "join sep [x] = x"
| "join sep (x # y # ys) = x @ sep @ join sep (y # ys)"

definition csv_line :: "string list \<Rightarrow> string" where
  "csv_line fs =
     (if fs = [[]] then [CHR 0x22, CHR 0x22] else join '','' (map csv_field fs)) @ [CHR 0x0A]"

definition row_at :: "dataframe \<Rightarrow> nat \<Rightarrow> cell list" where
  "row_at df i = map (\<lambda>(l, c). c ! i) (cols df)"

definition csv_records :: "dataframe \<Rightarrow> string list list" where
  "csv_records df =
     map label_text (labels df) # map (\<lambda>i. map cell_text (row_at df i)) [0..<nrows df]"

definition to_csv_text :: "dataframe \<Rightarrow> string" where
  "to_csv_text df = concat (map csv_line (csv_records df))"

text \<open>\<open>os.path.join\<close> and \<open>os.path.dirname\<close> of posixpath, on two components.\<close>

definition path_join :: "string \<Rightarrow> string \<Rightarrow> string" where
  "path_join a b =
     (if b \<noteq> [] \<and> hd b = CHR ''/'' then b
      else if a = [] \<or> last a = CHR ''/'' then a @ b
      else a @ ''/'' @ b)"

definition dirname :: "string \<Rightarrow> string" where
  "dirname p =
     (let head = rev (dropWhile (\<lambda>c. c \<noteq> CHR ''/'') (rev p)) in
      if head \<noteq> [] \<and> \<not> set head \<subseteq> {CHR ''/''}
      then rev (dropWhile (\<lambda>c. c = CHR ''/'') (rev head))
      else head)"

text \<open>
  The file system: which paths are directories, and the contents of the files. pandas
  refuses to write into a directory that does not exist; nothing is created for it.
\<close>

record world =
  is_dir :: "string \<Rightarrow> bool"
  files :: "string \<Rightarrow> string option"

definition to_csv :: "dataframe \<Rightarrow> string \<Rightarrow> world \<Rightarrow> world result" where
  "to_csv df path w =
     (if is_dir w (dirname path)
      then Inr (w\<lparr>files := (files w)(path \<mapsto> to_csv_text df)\<rparr>)
      else Inl OSError)"

definition out_path :: "string \<Rightarrow> string" where
  "out_path cwd = path_join (path_join cwd ''data'') ''acs_ward_under5_pop.csv''"

subsection \<open>The whole script\<close>

text \<open>
  The run from the response on, in the working directory \<open>cwd\<close> and the file system \<open>w\<close>:
  the error that ended it (None for a normal end) and the file system it leaves.
\<close>

definition script :: "numeric \<Rightarrow> response \<Rightarrow> string \<Rightarrow> world \<Rightarrow> error option \<times> world" where
  "script num resp cwd w =
     (case rbind (fetch resp) (\<lambda>data.
           rbind (case data of None \<Rightarrow> Inl NameError | Some d \<Rightarrow> transform num d) (\<lambda>df.
           to_csv df (out_path cwd) w))
      of Inl e \<Rightarrow> (Some e, w) | Inr w' \<Rightarrow> (None, w'))"

subsection \<open>A reading of integer literals for \<open>pd.to_numeric\<close>\<close>

text \<open>
  On a string of decimal digits with an optional sign whose value fits 64 bits,
  \<open>pd.to_numeric\<close> gives that int64 value. \<open>int64_of_string\<close> is this reading, None on
  every other string; it is the instance of the parameter \<open>num\<close> used on the concrete
  payloads below. What becomes of a string it does not read is decided by \<open>to_numeric\<close>.
\<close>

definition digit_of :: "char \<Rightarrow> nat option" where
  "digit_of c = map_of (zip ''0123456789'' [0, 1, 2, 3, 4, 5, 6, 7, 8, 9]) c"

fun nat_of_digits :: "nat \<Rightarrow> string \<Rightarrow> nat option" where
  "nat_of_digits acc [] = Some acc"
| "nat_of_digits acc (c # cs) =
     (case digit_of c of None \<Rightarrow> None | Some k \<Rightarrow> nat_of_digits (10 * acc + k) cs)"

definition int_of_literal :: "string \<Rightarrow> int option" where
  "int_of_literal s =
     (case s of [] \<Rightarrow> None
      | c # cs \<Rightarrow>
          if c = CHR ''-'' then (if cs = [] then None
                                else map_option (\<lambda>n. - int n) (nat_of_digits 0 cs))
          else if c = CHR ''+'' then (if cs = [] then None
                                     else map_option int (nat_of_digits 0 cs))
          else map_option int (nat_of_digits 0 s))"

definition int64_of_string :: "numeric" where
  "int64_of_string s =
     (case int_of_literal s of None \<Rightarrow> None
      | Some i \<Rightarrow> if - (2 ^ 63) \<le> i \<and> i < 2 ^ 63 then Some (word_of_int i) else None)"

definition fixture :: "string list list" where
  "fixture = [[''B01001_003E'', ''B01001_027E'', ''state_leg_district'', ''state''],
              [''10'', ''20'', ''001'', ''11''],
              [''5'', ''7'', ''002'', ''11'']]"

subsection \<open>Well-formed payloads\<close>

text \<open>
  The payload the script is written for: a header row followed by data rows of the same
  width; the header names are distinct, begin with the two requested variable codes in the
  order of the request, contain \<open>state\<close> and none of the names the script introduces; the
  cells under the two variable codes are numbers.
\<close>

definition rectangular :: "string list list \<Rightarrow> bool" where
  "rectangular d = (\<forall>r \<in> set d. length r = length (hd d))"

definition well_formed :: "numeric \<Rightarrow> string list list \<Rightarrow> bool" where
  "well_formed num d \<longleftrightarrow>
     d \<noteq> [] \<and> rectangular d \<and> distinct (hd d) \<and>
     take 2 (hd d) = map fst variables \<and>
     ''state'' \<in> set (hd d) \<and>
     ''pop_under5'' \<notin> set (hd d) \<and>
     ''pop_under5_male'' \<notin> set (hd d) \<and>
     ''pop_under5_female'' \<notin> set (hd d) \<and>
     (\<forall>r \<in> set (tl d). num (r ! 0) \<noteq> None \<and> num (r ! 1) \<noteq> None)"

text \<open>
  Column \<open>j\<close> of the data rows as strings, and as the numbers read from them; the label a
  header name has after the renaming by \<open>variables\<close>.
\<close>

definition raw_col :: "string list list \<Rightarrow> nat \<Rightarrow> series" where
  "raw_col d j = map (\<lambda>r. Str (r ! j)) (tl d)"

definition num_col :: "numeric \<Rightarrow> string list list \<Rightarrow> nat \<Rightarrow> series" where
  "num_col num d j = map (\<lambda>r. Int64 (the (num (r ! j)))) (tl d)"


section \<open>Properties of the statements\<close>

lemma rbind_Inl [simp]: "rbind (Inl e) f = Inl e"
  by (simp add: rbind_def)

lemma rbind_Inr [simp]: "rbind (Inr x) f = f x"
  by (simp add: rbind_def)

lemma rbind_eq_Inr: "rbind m f = Inr y \<longleftrightarrow> (\<exists>x. m = Inr x \<and> f x = Inr y)"
  by (cases m) simp_all

lemma traverse_map: "(\<And>x. x \<in> set xs \<Longrightarrow> f x = Inr (g x)) \<Longrightarrow> traverse f xs = Inr (map g xs)"
  by (induction xs) simp_all

lemma foldr_max_const:
  "\<forall>r \<in> set d. length r = n \<Longrightarrow> foldr (\<lambda>r k. max (length r) k) d 0 = (if d = [] then 0 else n)"
  by (induction d) auto

lemma ncols_of_rectangular:
  assumes "d \<noteq> []" and "rectangular d"
  shows "ncols_of d = length (hd d)"
proof -
  from assms(2) have "\<forall>r \<in> set d. length r = length (hd d)"
    by (simp only: rectangular_def)
  from foldr_max_const [OF this] assms(1) show ?thesis
    by (simp only: ncols_of_def if_False)
qed

lemma iloc_DataFrame:
  assumes "d \<noteq> []"
  shows "iloc (DataFrame d) 0 = Inr (map (\<lambda>j. (IntL (int j), Str (hd d ! j))) [0..<ncols_of d])"
  using assms by (simp add: iloc_def DataFrame_def nrows_def hd_conv_nth)

lemma map_of_upt:
  assumes "j < n"
  shows "map_of (map (\<lambda>j. (IntL (int j), f j)) [0..<n]) (IntL (int j)) = Some (f j)"
proof -
  have "distinct (map fst (map (\<lambda>j. (IntL (int j), f j)) [0..<n]))"
    by (simp add: distinct_map comp_def inj_on_def)
  moreover have "(IntL (int j), f j) \<in> set (map (\<lambda>j. (IntL (int j), f j)) [0..<n])"
    using assms by auto
  ultimately show ?thesis by (rule map_of_is_SomeI)
qed

lemma rename_first_row:
  assumes "d \<noteq> []"
  shows "rename_columns (series_mapper (map (\<lambda>j. (IntL (int j), Str (hd d ! j))) [0..<ncols_of d]))
           (DataFrame d) =
         \<lparr>cols = map (\<lambda>j. (StrL (hd d ! j), map (\<lambda>r. Str (r ! j)) d)) [0..<ncols_of d],
          index = [0..<length d]\<rparr>"
proof -
  have "series_mapper (map (\<lambda>j. (IntL (int j), Str (hd d ! j))) [0..<ncols_of d]) (IntL (int j))
        = Some (StrL (hd d ! j))" if "j < ncols_of d" for j
    using map_of_upt [OF that, of "\<lambda>j. StrL (hd d ! j)"]
    by (simp add: series_mapper_def comp_def)
  then show ?thesis
    by (simp add: rename_columns_def DataFrame_def)
qed

lemma keep_rows_0: "keep_rows [0..<length c] [0] c = tl c"
proof (cases c)
  case Nil
  then show ?thesis by (simp add: keep_rows_def)
next
  case (Cons x xs)
  have up: "[0..<Suc (length xs)] = 0 # map Suc [0..<length xs]"
    by (simp add: upt_conv_Cons map_Suc_upt del: upt_Suc)
  have "filter (\<lambda>(i, v). i \<noteq> 0) (zip (map Suc [0..<length xs]) xs) = zip (map Suc [0..<length xs]) xs"
    by (rule filter_True) (auto dest: set_zip_leftD)
  then show ?thesis
    using Cons by (simp add: keep_rows_def up del: upt_Suc)
qed

lemma filter_upt_0: "filter (\<lambda>i. 0 < i) [0..<m] = [Suc 0..<m]"
proof (cases m)
  case 0
  then show ?thesis by simp
next
  case (Suc k)
  have "filter (\<lambda>i. 0 < i) [Suc 0..<m] = [Suc 0..<m]"
    by (rule filter_True) auto
  then show ?thesis
    using Suc by (simp add: upt_conv_Cons del: upt_Suc)
qed

lemma drop_first_row:
  assumes "d \<noteq> []"
  shows "drop_rows [0] \<lparr>cols = map (\<lambda>j. (l j, map (f j) d)) js, index = [0..<length d]\<rparr> =
         Inr \<lparr>cols = map (\<lambda>j. (l j, map (f j) (tl d))) js, index = [1..<length d]\<rparr>"
proof -
  have "keep_rows [0..<length d] [0] (map (f j) d) = map (f j) (tl d)" for j
    using keep_rows_0 [of "map (f j) d"] by (simp add: map_tl)
  then show ?thesis
    using assms by (simp add: drop_rows_def filter_upt_0)
qed

lemma well_formed_header:
  assumes "well_formed num d"
  shows "2 \<le> length (hd d)" and "hd d ! 0 = ''B01001_003E''" and "hd d ! 1 = ''B01001_027E''"
proof -
  from assms have t: "take 2 (hd d) = [''B01001_003E'', ''B01001_027E'']"
    by (simp add: well_formed_def variables_def)
  then have "length (take 2 (hd d)) = 2" by simp
  then show "2 \<le> length (hd d)" by simp
  have "take 2 (hd d) ! 0 = hd d ! 0" and "take 2 (hd d) ! 1 = hd d ! 1" by simp_all
  with t show "hd d ! 0 = ''B01001_003E''" and "hd d ! 1 = ''B01001_027E''" by simp_all
qed

lemma well_formed_other:
  assumes "well_formed num d" and "2 \<le> j" and "j < length (hd d)"
  shows "hd d ! j \<noteq> ''B01001_003E''" and "hd d ! j \<noteq> ''B01001_027E''"
    and "hd d ! j \<noteq> ''pop_under5''" and "hd d ! j \<noteq> ''pop_under5_male''"
    and "hd d ! j \<noteq> ''pop_under5_female''"
proof -
  from assms(1) have dist: "distinct (hd d)" by (simp add: well_formed_def)
  have len: "2 \<le> length (hd d)" by (rule well_formed_header(1) [OF assms(1)])
  have l0: "0 < length (hd d)" and l1: "1 < length (hd d)" using len by linarith+
  have "hd d ! j \<noteq> hd d ! 0"
    using nth_eq_iff_index_eq [OF dist assms(3) l0] assms(2) by simp
  moreover have "hd d ! j \<noteq> hd d ! 1"
    using nth_eq_iff_index_eq [OF dist assms(3) l1] assms(2) by simp
  ultimately have "hd d ! j \<noteq> hd d ! 0" and "hd d ! j \<noteq> hd d ! 1" by blast+
  with well_formed_header [OF assms(1)]
  show "hd d ! j \<noteq> ''B01001_003E''" and "hd d ! j \<noteq> ''B01001_027E''" by simp_all
  from assms(3) have "hd d ! j \<in> set (hd d)" by simp
  with assms(1) show "hd d ! j \<noteq> ''pop_under5''" and "hd d ! j \<noteq> ''pop_under5_male''"
    and "hd d ! j \<noteq> ''pop_under5_female''"
    unfolding well_formed_def by metis+
qed

lemma upt_from_2: "2 \<le> n \<Longrightarrow> [0..<n] = 0 # 1 # [2..<n]"
  by (simp add: upt_conv_Cons numeral_2_eq_2)

lemma dict_mapper_variables:
  "dict_mapper variables (StrL s) =
     (if s = ''B01001_003E'' then Some (StrL ''pop_under5_male'')
      else if s = ''B01001_027E'' then Some (StrL ''pop_under5_female'') else None)"
  by (simp add: dict_mapper_def variables_def)

lemma rename_variables:
  assumes "well_formed num d"
  shows "rename_columns (dict_mapper variables)
           \<lparr>cols = map (\<lambda>j. (StrL (hd d ! j), f j)) [0..<length (hd d)], index = ix\<rparr> =
         \<lparr>cols = (StrL ''pop_under5_male'', f 0) # (StrL ''pop_under5_female'', f 1) #
                 map (\<lambda>j. (StrL (hd d ! j), f j)) [2..<length (hd d)],
          index = ix\<rparr>"
proof -
  have rest: "map (\<lambda>(l, c). (case dict_mapper variables l of None \<Rightarrow> l | Some l' \<Rightarrow> l', c))
                (map (\<lambda>j. (StrL (hd d ! j), f j)) [2..<length (hd d)]) =
              map (\<lambda>j. (StrL (hd d ! j), f j)) [2..<length (hd d)]"
    using well_formed_other(1,2) [OF assms]
    by (simp add: dict_mapper_variables)
  show ?thesis
    unfolding rename_columns_def upt_from_2 [OF well_formed_header(1) [OF assms]]
    using rest well_formed_header(2,3) [OF assms]
    by (simp add: dict_mapper_variables)
qed

lemma to_numeric_col:
  assumes "\<forall>r \<in> set rs. num (r ! j) \<noteq> None"
  shows "traverse (to_numeric num) (map (\<lambda>r. Str (r ! j)) rs) =
         Inr (map (\<lambda>r. Int64 (the (num (r ! j)))) rs)"
proof -
  have "traverse (to_numeric num) (map (\<lambda>r. Str (r ! j)) rs) =
        Inr (map (\<lambda>c. case c of Str s \<Rightarrow> Int64 (the (num s)) | Int64 w \<Rightarrow> Int64 w)
               (map (\<lambda>r. Str (r ! j)) rs))"
    using assms by (intro traverse_map) auto
  then show ?thesis by (simp add: comp_def)
qed

lemma traverse_Inr_elem:
  "traverse f xs = Inr ys \<Longrightarrow> x \<in> set xs \<Longrightarrow> \<exists>y. f x = Inr y"
  by (induction xs arbitrary: ys) (auto split: sum.splits)

lemma apply_to_numeric_converts:
  assumes "\<And>l c. (l, c) \<in> set (cols df) \<Longrightarrow> l \<in> set ls \<Longrightarrow>
             traverse (to_numeric num) c = Inr (f (l, c)) \<and> NaN \<notin> set (f (l, c))"
  shows "apply_to_numeric num ls df =
         Inr (df\<lparr>cols := map (\<lambda>(l, c). if l \<in> set ls then (l, f (l, c)) else (l, c))
                              (cols df)\<rparr>)"
proof -
  let ?sel = "concat (map snd (filter (\<lambda>(l, c). l \<in> set ls) (cols df)))"
  have "Inl ValueError \<notin> set (map (to_numeric num) ?sel)"
  proof
    assume "Inl ValueError \<in> set (map (to_numeric num) ?sel)"
    then obtain l c x where m: "(l, c) \<in> set (cols df)" "l \<in> set ls" "x \<in> set c"
      and e: "to_numeric num x = Inl ValueError"
      by auto
    from assms [OF m(1,2)] have "traverse (to_numeric num) c = Inr (f (l, c))" by simp
    from traverse_Inr_elem [OF this m(3)] e show False by simp
  qed
  moreover have "traverse (\<lambda>(l, c). if l \<in> set ls
                                then rbind (to_numeric_series num c) (\<lambda>c'. Inr (l, c'))
                                else Inr (l, c)) (cols df) =
                 Inr (map (\<lambda>(l, c). if l \<in> set ls then (l, f (l, c)) else (l, c)) (cols df))"
    using assms by (intro traverse_map) (auto simp: to_numeric_series_def)
  ultimately show ?thesis
    by (simp only: apply_to_numeric_def if_False rbind_Inr)
qed

lemma shape_well_formed:
  assumes "well_formed num d"
  shows "shape num d =
         Inr \<lparr>cols = (StrL ''pop_under5_male'', num_col num d 0) #
                      (StrL ''pop_under5_female'', num_col num d 1) #
                      map (\<lambda>j. (StrL (hd d ! j), raw_col d j)) [2..<length (hd d)],
               index = [1..<length d]\<rparr>"
proof -
  from assms have ne: "d \<noteq> []" and rect: "rectangular d"
    and nums: "\<forall>r \<in> set (tl d). num (r ! 0) \<noteq> None" "\<forall>r \<in> set (tl d). num (r ! 1) \<noteq> None"
    by (simp_all add: well_formed_def)
  have n: "ncols_of d = length (hd d)" by (rule ncols_of_rectangular [OF ne rect])
  let ?rest = "map (\<lambda>j. (StrL (hd d ! j), raw_col d j)) [2..<length (hd d)]"
  let ?ls = "[StrL ''pop_under5_male'', StrL ''pop_under5_female'']"
  let ?shaped = "\<lparr>cols = (StrL ''pop_under5_male'', raw_col d 0) #
                          (StrL ''pop_under5_female'', raw_col d 1) # ?rest,
                  index = [1..<length d]\<rparr>"
  let ?f = "\<lambda>(l, c). if l = StrL ''pop_under5_male'' then num_col num d 0
                     else if l = StrL ''pop_under5_female'' then num_col num d 1 else c"
  have c0: "traverse (to_numeric num) (raw_col d 0) = Inr (num_col num d 0)"
    and c1: "traverse (to_numeric num) (raw_col d 1) = Inr (num_col num d 1)"
    unfolding raw_col_def num_col_def
    by (rule to_numeric_col [OF nums(1)], rule to_numeric_col [OF nums(2)])
  have sel: "traverse (to_numeric num) c = Inr (?f (l, c)) \<and> NaN \<notin> set (?f (l, c))"
    if "(l, c) \<in> set (cols ?shaped)" and "l \<in> set ?ls" for l c
  proof -
    have "(l, c) \<notin> set ?rest"
    proof
      assume "(l, c) \<in> set ?rest"
      then obtain k where k: "2 \<le> k" "k < length (hd d)" and l: "l = StrL (hd d ! k)"
        by auto
      from that(2) l have "hd d ! k = ''pop_under5_male'' \<or> hd d ! k = ''pop_under5_female''"
        by simp
      with well_formed_other(4,5) [OF assms k] show False by blast
    qed
    with that(1)
    have "(l, c) = (StrL ''pop_under5_male'', raw_col d 0) \<or>
          (l, c) = (StrL ''pop_under5_female'', raw_col d 1)"
      by simp
    then show ?thesis
      using c0 c1 by (auto simp: num_col_def)
  qed
  have keep: "map (\<lambda>(l, c). if l \<in> set ?ls then (l, ?f (l, c)) else (l, c)) ?rest = ?rest"
    using well_formed_other(4,5) [OF assms] by (intro map_idI) auto
  have conv: "apply_to_numeric num ?ls ?shaped =
              Inr \<lparr>cols = (StrL ''pop_under5_male'', num_col num d 0) #
                           (StrL ''pop_under5_female'', num_col num d 1) # ?rest,
                    index = [1..<length d]\<rparr>"
    using apply_to_numeric_converts [of ?shaped ?ls num ?f, OF sel] keep by simp
  let ?row0 = "map (\<lambda>j. (IntL (int j), Str (hd d ! j))) [0..<length (hd d)]"
  have s1: "iloc (DataFrame d) 0 = Inr ?row0"
    using iloc_DataFrame [OF ne] by (simp only: n)
  have s2: "rename_columns (series_mapper ?row0) (DataFrame d) =
            \<lparr>cols = map (\<lambda>j. (StrL (hd d ! j), map (\<lambda>r. Str (r ! j)) d)) [0..<length (hd d)],
             index = [0..<length d]\<rparr>"
    using rename_first_row [OF ne] by (simp only: n)
  have s3: "drop_rows [0]
              \<lparr>cols = map (\<lambda>j. (StrL (hd d ! j), map (\<lambda>r. Str (r ! j)) d)) [0..<length (hd d)],
               index = [0..<length d]\<rparr> =
            Inr \<lparr>cols = map (\<lambda>j. (StrL (hd d ! j), raw_col d j)) [0..<length (hd d)],
                  index = [1..<length d]\<rparr>"
    unfolding raw_col_def by (rule drop_first_row [OF ne])
  have s4: "rename_columns (dict_mapper variables)
              \<lparr>cols = map (\<lambda>j. (StrL (hd d ! j), raw_col d j)) [0..<length (hd d)],
               index = [1..<length d]\<rparr> =
            \<lparr>cols = (StrL ''pop_under5_male'', raw_col d 0) #
                    (StrL ''pop_under5_female'', raw_col d 1) # ?rest,
             index = [1..<length d]\<rparr>"
    by (rule rename_variables [OF assms])
  have s5: "take 2 (labels \<lparr>cols = (StrL ''pop_under5_male'', raw_col d 0) #
                    (StrL ''pop_under5_female'', raw_col d 1) # ?rest,
             index = [1..<length d]\<rparr>) = ?ls"
    by (simp add: labels_def)
  show ?thesis
    by (simp only: shape_def Let_def s1 rbind_Inr s2 s3 s4 s5 conv)
qed

lemma add_series_Int64:
  "add_series (map (\<lambda>r. Int64 (a r)) rs) (map (\<lambda>r. Int64 (b r)) rs) =
   Inr (map (\<lambda>r. Int64 (a r + b r)) rs)"
proof -
  have z: "zip (map (\<lambda>r. Int64 (a r)) rs) (map (\<lambda>r. Int64 (b r)) rs) =
           map (\<lambda>r. (Int64 (a r), Int64 (b r))) rs"
    by (induction rs) simp_all
  have "traverse (\<lambda>(x, y). add_cell x y) (map (\<lambda>r. (Int64 (a r), Int64 (b r))) rs) =
        Inr (map (\<lambda>(x, y). case (x, y) of (Int64 u, Int64 v) \<Rightarrow> Int64 (u + v) | _ \<Rightarrow> x)
               (map (\<lambda>r. (Int64 (a r), Int64 (b r))) rs))"
    by (intro traverse_map) auto
  then show ?thesis by (simp add: add_series_def z comp_def)
qed

lemma aggregate_numeric:
  assumes c: "cols df = (StrL ''pop_under5_male'', map (\<lambda>r. Int64 (a r)) rs) #
                        (StrL ''pop_under5_female'', map (\<lambda>r. Int64 (b r)) rs) # rest"
    and st: "StrL ''state'' \<in> fst ` set rest"
    and np: "StrL ''pop_under5'' \<notin> fst ` set rest"
  shows "aggregate df =
         Inr (df\<lparr>cols := filter (\<lambda>(l, c). l \<noteq> StrL ''state'' \<and> l \<noteq> StrL ''pop_under5_male'' \<and>
                                            l \<noteq> StrL ''pop_under5_female'') rest @
                            [(StrL ''pop_under5'', map (\<lambda>r. Int64 (a r + b r)) rs)]\<rparr>)"
proof -
  have g1: "getitem df (StrL ''pop_under5_male'') = Inr (map (\<lambda>r. Int64 (a r)) rs)"
    and g2: "getitem df (StrL ''pop_under5_female'') = Inr (map (\<lambda>r. Int64 (b r)) rs)"
    by (simp_all add: getitem_def c)
  have s: "setitem df (StrL ''pop_under5'') t = df\<lparr>cols := cols df @ [(StrL ''pop_under5'', t)]\<rparr>" for t
    using np by (simp add: setitem_def labels_def c)
  have d: "drop_columns [StrL ''state'', StrL ''pop_under5_male'', StrL ''pop_under5_female'']
             (df\<lparr>cols := cols df @ [(StrL ''pop_under5'', t)]\<rparr>) =
           Inr (df\<lparr>cols := filter (\<lambda>(l, c). l \<noteq> StrL ''state'' \<and> l \<noteq> StrL ''pop_under5_male'' \<and>
                                            l \<noteq> StrL ''pop_under5_female'') rest @
                            [(StrL ''pop_under5'', t)]\<rparr>)" for t
    using st by (simp add: drop_columns_def labels_def c)
  show ?thesis
    by (simp only: aggregate_def g1 g2 rbind_Inr add_series_Int64 s d)
qed

lemma py_sum_Int64: "\<exists>s. py_sum (Int64 a) (map (\<lambda>r. Int64 (g r)) rs) = Inr s"
  by (induction rs arbitrary: a) simp_all

lemma checks_numeric:
  assumes "cols df = xs @ [(StrL ''pop_under5'', map (\<lambda>r. Int64 (g r)) rs)]"
    and "StrL ''pop_under5'' \<notin> fst ` set xs"
  shows "checks df = Inr ()"
proof -
  from assms(2) have "map_of xs (StrL ''pop_under5'') = None"
    by (simp add: map_of_eq_None_iff)
  then have "getitem df (StrL ''pop_under5'') = Inr (map (\<lambda>r. Int64 (g r)) rs)"
    by (simp add: getitem_def assms(1) map_add_def)
  moreover obtain s where "py_sum (Int64 0) (map (\<lambda>r. Int64 (g r)) rs) = Inr s"
    using py_sum_Int64 by blast
  ultimately show ?thesis by (simp add: checks_def)
qed

lemma transform_well_formed:
  assumes "well_formed num d"
  shows "transform num d =
         Inr \<lparr>cols = map (\<lambda>j. (StrL (hd d ! j), raw_col d j))
                        (filter (\<lambda>j. hd d ! j \<noteq> ''state'') [2..<length (hd d)]) @
                      [(StrL ''pop_under5'',
                        map (\<lambda>r. Int64 (the (num (r ! 0)) + the (num (r ! 1)))) (tl d))],
               index = [1..<length d]\<rparr>"
proof -
  let ?h = "\<lambda>j. (StrL (hd d ! j), raw_col d j)"
  let ?rest = "map ?h [2..<length (hd d)]"
  let ?keep = "\<lambda>(l, c :: series). l \<noteq> StrL ''state'' \<and> l \<noteq> StrL ''pop_under5_male'' \<and>
                              l \<noteq> StrL ''pop_under5_female''"
  let ?tot = "map (\<lambda>r. Int64 (the (num (r ! 0)) + the (num (r ! 1)))) (tl d)"
  let ?df = "\<lparr>cols = (StrL ''pop_under5_male'', num_col num d 0) #
                      (StrL ''pop_under5_female'', num_col num d 1) # ?rest,
              index = [1..<length d]\<rparr>"
  have hdr: "2 \<le> length (hd d)" "hd d ! 0 = ''B01001_003E''" "hd d ! 1 = ''B01001_027E''"
    by (rule well_formed_header [OF assms])+
  from assms have "''state'' \<in> set (hd d)" by (simp add: well_formed_def)
  then obtain j where j: "j < length (hd d)" "hd d ! j = ''state''"
    by (auto simp: in_set_conv_nth)
  with hdr have "2 \<le> j"
    by (cases "j = 0"; cases "j = 1") auto
  with j have st: "StrL ''state'' \<in> fst ` set ?rest"
    by (auto simp: image_iff intro!: bexI [of _ j])
  have np: "StrL ''pop_under5'' \<notin> fst ` set ?rest"
  proof
    assume "StrL ''pop_under5'' \<in> fst ` set ?rest"
    then obtain k where "2 \<le> k" "k < length (hd d)" "hd d ! k = ''pop_under5''" by auto
    with well_formed_other(3) [OF assms] show False by blast
  qed
  have agg: "aggregate ?df =
             Inr (?df\<lparr>cols := filter ?keep ?rest @ [(StrL ''pop_under5'', ?tot)]\<rparr>)"
    by (rule aggregate_numeric [where rest = ?rest and rs = "tl d"
          and a = "\<lambda>r. the (num (r ! 0))" and b = "\<lambda>r. the (num (r ! 1))", OF _ st np])
      (simp add: num_col_def)
  have flt: "filter ?keep ?rest = map ?h (filter (\<lambda>j. hd d ! j \<noteq> ''state'') [2..<length (hd d)])"
    using well_formed_other(4,5) [OF assms]
    by (auto simp: filter_map comp_def intro!: arg_cong [where f = "map ?h"] filter_cong)
  have np': "StrL ''pop_under5'' \<notin> fst ` set (filter ?keep ?rest)"
    using np by auto
  have chk: "checks (?df\<lparr>cols := filter ?keep ?rest @ [(StrL ''pop_under5'', ?tot)]\<rparr>) = Inr ()"
    by (rule checks_numeric [where xs = "filter ?keep ?rest", OF _ np']) simp
  have "transform num d =
        Inr (?df\<lparr>cols := filter ?keep ?rest @ [(StrL ''pop_under5'', ?tot)]\<rparr>)"
    by (simp only: transform_def shape_well_formed [OF assms] rbind_Inr agg chk)
  then show ?thesis
    by (simp only: flt) simp
qed






lemma setitem_labels: "set (labels (setitem df l c)) = insert l (set (labels df))"
  by (auto simp: setitem_def labels_def image_iff split: if_splits) force+

lemma setitem_index: "index (setitem df l c) = index df"
  by (simp add: setitem_def)

lemma drop_columns_Inr:
  assumes "drop_columns ls df = Inr df'"
  shows "index df' = index df" and "set (labels df') = set (labels df) - set ls"
  using assms by (auto simp: drop_columns_def labels_def image_iff split: if_splits)

lemma aggregate_Inr:
  assumes "aggregate df = Inr df'"
  shows "index df' = index df"
    and "StrL ''state'' \<notin> set (labels df')"
    and "StrL ''pop_under5_male'' \<notin> set (labels df')"
    and "StrL ''pop_under5_female'' \<notin> set (labels df')"
    and "StrL ''pop_under5'' \<in> set (labels df')"
proof -
  from assms obtain t where
    d: "drop_columns [StrL ''state'', StrL ''pop_under5_male'', StrL ''pop_under5_female'']
          (setitem df (StrL ''pop_under5'') t) = Inr df'"
    by (auto simp: aggregate_def rbind_eq_Inr)
  from drop_columns_Inr(1) [OF d] show "index df' = index df"
    by (simp add: setitem_index)
  from drop_columns_Inr(2) [OF d]
  show "StrL ''state'' \<notin> set (labels df')"
    and "StrL ''pop_under5_male'' \<notin> set (labels df')"
    and "StrL ''pop_under5_female'' \<notin> set (labels df')"
    and "StrL ''pop_under5'' \<in> set (labels df')"
    by (simp_all add: setitem_labels)
qed

lemma transform_Inr:
  assumes "transform num d = Inr df"
  shows "\<exists>df0. shape num d = Inr df0 \<and> aggregate df0 = Inr df \<and> checks df = Inr ()"
  using assms by (auto simp: transform_def rbind_eq_Inr)

lemma getitem_last:
  assumes "cols df = xs @ [(l, c)]" and "l \<notin> fst ` set xs"
  shows "getitem df l = Inr c"
proof -
  from assms(2) have "map_of xs l = None" by (simp add: map_of_eq_None_iff)
  then show ?thesis by (simp add: getitem_def assms(1) map_add_def)
qed

lemma script_not_200:
  "status_code resp \<noteq> 200 \<Longrightarrow> script num resp cwd w = (Some NameError, w)"
  by (simp add: script_def fetch_def)

lemma script_transform_error:
  "status_code resp = 200 \<Longrightarrow> json_body resp = Some d \<Longrightarrow> transform num d = Inl e \<Longrightarrow>
   script num resp cwd w = (Some e, w)"
  by (simp add: script_def fetch_def)

lemma script_written:
  "status_code resp = 200 \<Longrightarrow> json_body resp = Some d \<Longrightarrow> transform num d = Inr df \<Longrightarrow>
   is_dir w (dirname (out_path cwd)) \<Longrightarrow>
   script num resp cwd w = (None, w\<lparr>files := (files w)(out_path cwd \<mapsto> to_csv_text df)\<rparr>)"
  by (simp add: script_def fetch_def to_csv_def)

lemma script_None:
  assumes "script num resp cwd w = (None, w')"
  shows "\<exists>d df. status_code resp = 200 \<and> json_body resp = Some d \<and> transform num d = Inr df \<and>
           is_dir w (dirname (out_path cwd)) \<and>
           w' = w\<lparr>files := (files w)(out_path cwd \<mapsto> to_csv_text df)\<rparr>"
proof (cases "status_code resp = 200")
  case False
  with assms show ?thesis by (simp add: script_not_200)
next
  case ok: True
  show ?thesis
  proof (cases "json_body resp")
    case None
    with ok assms show ?thesis by (simp add: script_def fetch_def)
  next
    case (Some d)
    show ?thesis
    proof (cases "transform num d")
      case (Inl e)
      with ok Some assms show ?thesis by (simp add: script_transform_error)
    next
      case (Inr df)
      with ok Some assms show ?thesis
        by (cases "is_dir w (dirname (out_path cwd))")
          (auto simp: script_def fetch_def to_csv_def)
    qed
  qed
qed

lemma well_formed_fixture: "well_formed int64_of_string fixture"
  by code_simp

lemma transform_fixture:
  "transform int64_of_string fixture =
   Inr \<lparr>cols = [(StrL ''state_leg_district'', [Str ''001'', Str ''002'']),
                (StrL ''pop_under5'', [Int64 30, Int64 12])],
         index = [1, 2]\<rparr>"
  by code_simp

lemma shape_fixture:
  "shape int64_of_string fixture =
   Inr \<lparr>cols = [(StrL ''pop_under5_male'', [Int64 10, Int64 5]),
                (StrL ''pop_under5_female'', [Int64 20, Int64 7]),
                (StrL ''state_leg_district'', [Str ''001'', Str ''002'']),
                (StrL ''state'', [Str ''11'', Str ''11''])],
         index = [1, 2]\<rparr>"
  by code_simp

lemma out_path_example: "out_path ''/home/acs'' = ''/home/acs/data/acs_ward_under5_pop.csv''"
  by code_simp

lemma dirname_example: "dirname ''/home/acs/data/acs_ward_under5_pop.csv'' = ''/home/acs/data''"
  by code_simp

lemma csv_fixture:
  "to_csv_text \<lparr>cols = [(StrL ''state_leg_district'', [Str ''001'', Str ''002'']),
                        (StrL ''pop_under5'', [Int64 30, Int64 12])],
                index = [1, 2]\<rparr> =
   ''state_leg_district,pop_under5'' @ [CHR 0x0A] @ ''001,30'' @ [CHR 0x0A] @
   ''002,12'' @ [CHR 0x0A]"
  by code_simp

lemma script_fixture:
  "script int64_of_string \<lparr>status_code = 200, json_body = Some fixture\<rparr> ''/home/acs''
     \<lparr>is_dir = (\<lambda>p. p = ''/home/acs/data''), files = Map.empty\<rparr> =
   (None, \<lparr>is_dir = (\<lambda>p. p = ''/home/acs/data''),
           files = [''/home/acs/data/acs_ward_under5_pop.csv'' \<mapsto>
                    ''state_leg_district,pop_under5'' @ [CHR 0x0A] @ ''001,30'' @ [CHR 0x0A] @
                    ''002,12'' @ [CHR 0x0A]]\<rparr>)"
proof -
  have "is_dir \<lparr>is_dir = (\<lambda>p. p = ''/home/acs/data''), files = Map.empty\<rparr>
          (dirname (out_path ''/home/acs''))"
    by (simp add: out_path_example dirname_example)
  from script_written [OF _ _ transform_fixture this,
      of "\<lparr>status_code = 200, json_body = Some fixture\<rparr>"]
  show ?thesis by (simp add: out_path_example csv_fixture [unfolded One_nat_def])
qed

lemma sint_add_no_overflow:
  fixes a b :: "64 word"
  assumes "- (2 ^ 63) \<le> sint a + sint b" and "sint a + sint b < 2 ^ 63"
  shows "sint (a + b) = sint a + sint b"
  using assms by (simp add: sint_word_ariths signed_take_bit_int_eq_self)

lemma transform_well_formed_rows:
  assumes "well_formed num d"
  shows "\<exists>df. transform num d = Inr df \<and> index df = [1..<length d] \<and>
           cols df = map (\<lambda>j. (StrL (hd d ! j), raw_col d j))
                       (filter (\<lambda>j. hd d ! j \<noteq> ''state'') [2..<length (hd d)]) @
                     [(StrL ''pop_under5'',
                       map (\<lambda>r. Int64 (the (num (r ! 0)) + the (num (r ! 1)))) (tl d))]"
  by (simp add: transform_well_formed [OF assms])

lemma length_csv_records: "length (csv_records df) = Suc (nrows df)"
  by (simp add: csv_records_def)


lemma csv_line_plain:
  assumes "fs \<noteq> [[]]" and "\<forall>f \<in> set fs. \<not> needs_quote f"
  shows "csv_line fs = join '','' fs @ [CHR 0x0A]"
proof -
  have "map csv_field fs = fs"
    using assms(2) by (induction fs) (simp_all add: csv_field_def)
  with assms(1) show ?thesis by (simp add: csv_line_def)
qed

lemma out_path_absolute:
  assumes "cwd \<noteq> []" and "last cwd \<noteq> CHR ''/''"
  shows "out_path cwd = cwd @ ''/data/acs_ward_under5_pop.csv''"
  using assms by (simp add: out_path_def path_join_def)

lemma csv_records_width: "\<forall>r \<in> set (csv_records df). length r = length (labels df)"
  by (auto simp: csv_records_def row_at_def labels_def)

lemma script_fixture_again:
  "script int64_of_string \<lparr>status_code = 200, json_body = Some fixture\<rparr> ''/srv/job/''
     \<lparr>is_dir = (\<lambda>p. True), files = [''/srv/job/data/acs_ward_under5_pop.csv'' \<mapsto> ''stale'']\<rparr> =
   (None, \<lparr>is_dir = (\<lambda>p. True),
           files = [''/srv/job/data/acs_ward_under5_pop.csv'' \<mapsto>
                    ''state_leg_district,pop_under5'' @ [CHR 0x0A] @ ''001,30'' @ [CHR 0x0A] @
                    ''002,12'' @ [CHR 0x0A]]\<rparr>)"
proof -
  have p: "out_path ''/srv/job/'' = ''/srv/job/data/acs_ward_under5_pop.csv''"
    by code_simp
  from script_written [OF _ _ transform_fixture,
      of "\<lparr>status_code = 200, json_body = Some fixture\<rparr>"
         "\<lparr>is_dir = (\<lambda>p. True),
           files = [''/srv/job/data/acs_ward_under5_pop.csv'' \<mapsto> ''stale'']\<rparr>" "''/srv/job/''"]
  show ?thesis by (simp add: p csv_fixture [unfolded One_nat_def])
qed

lemma drop_as_map_nth: "map ((!) xs) [k..<length xs] = drop k xs"
  by (simp add: list_eq_iff_nth_eq)

lemma kept_names:
  "map (\<lambda>j. xs ! j) (filter (\<lambda>j. P (xs ! j)) [k..<length xs]) = filter P (drop k xs)"
proof -
  have "map ((!) xs) (filter (P \<circ> (!) xs) [k..<length xs]) = filter P (map ((!) xs) [k..<length xs])"
    by (simp only: filter_map)
  then show ?thesis by (simp add: drop_as_map_nth comp_def)
qed

lemma well_formed_kept:
  assumes "well_formed num d"
  shows "filter (\<lambda>h. h \<noteq> ''state'') (drop 2 (hd d)) =
         filter (\<lambda>h. h \<notin> {''B01001_003E'', ''B01001_027E'', ''state''}) (hd d)"
proof -
  from well_formed_header [OF assms] obtain a b ys where
    xs: "hd d = a # b # ys" and a: "a = ''B01001_003E''" and b: "b = ''B01001_027E''"
    by (cases "hd d"; cases "tl (hd d)") auto
  from assms have "distinct (hd d)" by (simp add: well_formed_def)
  with xs a b have "''B01001_003E'' \<notin> set ys" and "''B01001_027E'' \<notin> set ys" by auto
  then have "filter (\<lambda>h. h \<noteq> ''state'') ys =
             filter (\<lambda>h. h \<notin> {''B01001_003E'', ''B01001_027E'', ''state''}) ys"
    by (intro filter_cong) auto
  then show ?thesis by (simp add: xs a b)
qed

lemma csv_records_fixture:
  "csv_records \<lparr>cols = [(StrL ''state_leg_district'', [Str ''001'', Str ''002'']),
                        (StrL ''pop_under5'', [Int64 30, Int64 12])],
                index = [1, 2]\<rparr> =
   [[''state_leg_district'', ''pop_under5''], [''001'', ''30''], [''002'', ''12'']]"
  by code_simp









section \<open>The specification's claims\<close>

text \<open>
  C1. On the two-row fixture the shaper and aggregator produce exactly the rows
  (state_leg_district = 001, pop_under5 = 30) and (state_leg_district = 002, pop_under5 = 12);
  the records written are the header and these two rows.
\<close>

theorem fixture_rows:
  "transform int64_of_string fixture =
   Inr \<lparr>cols = [(StrL ''state_leg_district'', [Str ''001'', Str ''002'']),
                (StrL ''pop_under5'', [Int64 30, Int64 12])],
         index = [1, 2]\<rparr> \<and>
   map_sum id csv_records (transform int64_of_string fixture) =
   Inr [[''state_leg_district'', ''pop_under5''], [''001'', ''30''], [''002'', ''12'']]"
  by code_simp

text \<open>
  C3. A response whose status code is not 200 leaves \<open>data\<close> unbound: the run ends with
  NameError at the first use of the name, and the file system is as it was, so no output
  file is written.
\<close>

theorem non_200_name_error:
  "status_code resp \<noteq> 200 \<Longrightarrow> script num resp cwd w = (Some NameError, w)"
  by (rule script_not_200)

theorem non_200_name_error_witness:
  "status_code \<lparr>status_code = 404, json_body = None\<rparr> \<noteq> 200 \<and>
   script int64_of_string \<lparr>status_code = 404, json_body = None\<rparr> ''/home/acs''
     \<lparr>is_dir = (\<lambda>p. True), files = Map.empty\<rparr> =
   (Some NameError, \<lparr>is_dir = (\<lambda>p. True), files = Map.empty\<rparr>)"
  using non_200_name_error [of "\<lparr>status_code = 404, json_body = None\<rparr>" int64_of_string
      "''/home/acs''" "\<lparr>is_dir = (\<lambda>p. True), files = Map.empty\<rparr>"]
  by simp

text \<open>
  C2. On a well-formed payload the run succeeds and, in every row of the final table,
  pop_under5 is the sum of the numbers that row holds under pop_under5_male and
  pop_under5_female in the table as it is before the columns are dropped. The sum is the
  int64 addition of pandas; where the mathematical sum fits 64 bits it is that sum.
\<close>

theorem pop_under5_sum:
  assumes "well_formed num d" and "i < length d - 1"
  shows "\<exists>df0 df male female total a b.
           shape num d = Inr df0 \<and> transform num d = Inr df \<and> i < nrows df \<and>
           getitem df0 (StrL ''pop_under5_male'') = Inr male \<and>
           getitem df0 (StrL ''pop_under5_female'') = Inr female \<and>
           getitem df (StrL ''pop_under5'') = Inr total \<and>
           male ! i = Int64 a \<and> female ! i = Int64 b \<and> total ! i = Int64 (a + b) \<and>
           (- (2 ^ 63) \<le> sint a + sint b \<and> sint a + sint b < 2 ^ 63 \<longrightarrow>
              sint (a + b) = sint a + sint b)"
proof -
  let ?rest = "map (\<lambda>j. (StrL (hd d ! j), raw_col d j)) [2..<length (hd d)]"
  let ?pre = "\<lparr>cols = (StrL ''pop_under5_male'', num_col num d 0) #
                       (StrL ''pop_under5_female'', num_col num d 1) # ?rest,
               index = [1..<length d]\<rparr>"
  let ?kept = "map (\<lambda>j. (StrL (hd d ! j), raw_col d j))
                 (filter (\<lambda>j. hd d ! j \<noteq> ''state'') [2..<length (hd d)])"
  let ?tot = "map (\<lambda>r. Int64 (the (num (r ! 0)) + the (num (r ! 1)))) (tl d)"
  let ?fin = "\<lparr>cols = ?kept @ [(StrL ''pop_under5'', ?tot)], index = [1..<length d]\<rparr>"
  let ?r = "tl d ! i"
  from assms(2) have i: "i < length (tl d)" by simp
  have "StrL ''pop_under5'' \<notin> fst ` set ?kept"
  proof
    assume "StrL ''pop_under5'' \<in> fst ` set ?kept"
    then obtain k where "2 \<le> k" "k < length (hd d)" "hd d ! k = ''pop_under5''" by auto
    with well_formed_other(3) [OF assms(1)] show False by blast
  qed
  then have g: "getitem ?fin (StrL ''pop_under5'') = Inr ?tot"
    by (intro getitem_last [where xs = ?kept]) simp_all
  have m: "getitem ?pre (StrL ''pop_under5_male'') = Inr (num_col num d 0)"
    and f: "getitem ?pre (StrL ''pop_under5_female'') = Inr (num_col num d 1)"
    by (simp_all add: getitem_def)
  have "num_col num d 0 ! i = Int64 (the (num (?r ! 0)))"
    and "num_col num d 1 ! i = Int64 (the (num (?r ! 1)))"
    and "?tot ! i = Int64 (the (num (?r ! 0)) + the (num (?r ! 1)))"
    using i by (simp_all add: num_col_def)
  moreover have "i < nrows ?fin" using assms(2) by (simp add: nrows_def)
  ultimately show ?thesis
    using shape_well_formed [OF assms(1)] transform_well_formed [OF assms(1)] g m f
      sint_add_no_overflow
    by blast
qed

theorem pop_under5_sum_witness:
  "well_formed int64_of_string fixture \<and> (0::nat) < length fixture - 1 \<and>
   (\<exists>df0 df male female total.
      shape int64_of_string fixture = Inr df0 \<and> transform int64_of_string fixture = Inr df \<and>
      0 < nrows df \<and>
      getitem df0 (StrL ''pop_under5_male'') = Inr male \<and>
      getitem df0 (StrL ''pop_under5_female'') = Inr female \<and>
      getitem df (StrL ''pop_under5'') = Inr total \<and>
      male ! 0 = Int64 10 \<and> female ! 0 = Int64 20 \<and> total ! 0 = Int64 (10 + 20) \<and>
      - (2 ^ 63) \<le> sint (10 :: 64 word) + sint (20 :: 64 word) \<and>
      sint (10 :: 64 word) + sint (20 :: 64 word) < 2 ^ 63 \<and>
      sint (10 + 20 :: 64 word) = sint (10 :: 64 word) + sint (20 :: 64 word))"
proof -
  have len: "(0::nat) < length fixture - 1" by (simp add: fixture_def)
  from pop_under5_sum [OF well_formed_fixture len]
  obtain df0 df male female total a b where
    s: "shape int64_of_string fixture = Inr df0"
    and t: "transform int64_of_string fixture = Inr df" "0 < nrows df"
    and g: "getitem df0 (StrL ''pop_under5_male'') = Inr male"
      "getitem df0 (StrL ''pop_under5_female'') = Inr female"
      "getitem df (StrL ''pop_under5'') = Inr total"
    and v: "male ! 0 = Int64 a" "female ! 0 = Int64 b" "total ! 0 = Int64 (a + b)"
    and r: "- (2 ^ 63) \<le> sint a + sint b \<and> sint a + sint b < 2 ^ 63 \<longrightarrow>
              sint (a + b) = sint a + sint b"
    by blast
  from s g(1,2) have "male = [Int64 10, Int64 5]" and "female = [Int64 20, Int64 7]"
    by (auto simp: shape_fixture getitem_def)
  with v have ab: "a = 10" "b = 20" by simp_all
  have rng: "- (2 ^ 63) \<le> sint (10 :: 64 word) + sint (20 :: 64 word)"
    "sint (10 :: 64 word) + sint (20 :: 64 word) < 2 ^ 63"
    by simp_all
  with r ab have "sint (10 + 20 :: 64 word) = sint (10 :: 64 word) + sint (20 :: 64 word)"
    by blast
  with s t g v ab rng well_formed_fixture len show ?thesis by blast
qed

text \<open>
  C4. On a well-formed payload the run succeeds and the final table has one row for each
  payload row but the header: the row count is the payload's length minus one, every column
  has that many cells, and the records written are as many as the payload has rows (the
  header record, then the data).
\<close>

theorem row_count:
  assumes "well_formed num d"
  shows "\<exists>df. transform num d = Inr df \<and> nrows df = length d - 1 \<and>
           (\<forall>c \<in> snd ` set (cols df). length c = length d - 1) \<and>
           length (csv_records df) = length d"
proof -
  from transform_well_formed_rows [OF assms] obtain df where
    t: "transform num d = Inr df" and ix: "index df = [1..<length d]"
    and cs: "cols df = map (\<lambda>j. (StrL (hd d ! j), raw_col d j))
                       (filter (\<lambda>j. hd d ! j \<noteq> ''state'') [2..<length (hd d)]) @
                     [(StrL ''pop_under5'',
                       map (\<lambda>r. Int64 (the (num (r ! 0)) + the (num (r ! 1)))) (tl d))]"
    by blast
  from assms have ne: "d \<noteq> []" by (simp add: well_formed_def)
  have n: "nrows df = length d - 1" by (simp add: nrows_def ix)
  have "\<forall>c \<in> snd ` set (cols df). length c = length d - 1"
    by (auto simp: cs raw_col_def)
  moreover have "length (csv_records df) = length d"
    using ne by (simp add: length_csv_records n)
  ultimately show ?thesis using t n by blast
qed

theorem row_count_witness:
  "well_formed int64_of_string fixture \<and>
   (\<exists>df. transform int64_of_string fixture = Inr df \<and> nrows df = 2 \<and>
      [Int64 30, Int64 12] \<in> snd ` set (cols df) \<and>
      (\<forall>c \<in> snd ` set (cols df). length c = 2) \<and>
      length (csv_records df) = 3)"
proof -
  have len: "length fixture = 3" by (simp add: fixture_def)
  from row_count [OF well_formed_fixture] obtain df where
    t: "transform int64_of_string fixture = Inr df"
    and p: "nrows df = length fixture - 1"
      "\<forall>c \<in> snd ` set (cols df). length c = length fixture - 1"
      "length (csv_records df) = length fixture"
    by blast
  from t have "[Int64 30, Int64 12] \<in> snd ` set (cols df)"
    by (auto simp: transform_fixture)
  with t p well_formed_fixture show ?thesis by (auto simp: len)
qed

text \<open>
  C5. Whenever the script ends normally, the table it wrote has none of the labels state,
  pop_under5_male and pop_under5_female. On a well-formed payload, fetched with status 200
  into a working directory that has a data directory, the script does end normally.
\<close>

theorem dropped_columns_absent:
  "(script num resp cwd w = (None, w') \<longrightarrow>
      (\<exists>d df. json_body resp = Some d \<and> transform num d = Inr df \<and>
         files w' (out_path cwd) = Some (to_csv_text df) \<and>
         StrL ''state'' \<notin> set (labels df) \<and>
         StrL ''pop_under5_male'' \<notin> set (labels df) \<and>
         StrL ''pop_under5_female'' \<notin> set (labels df))) \<and>
   (well_formed num d \<and> status_code resp = 200 \<and> json_body resp = Some d \<and>
    is_dir w (dirname (out_path cwd)) \<longrightarrow>
      (\<exists>w''. script num resp cwd w = (None, w'')))"
proof (intro conjI impI)
  assume "script num resp cwd w = (None, w')"
  from script_None [OF this] obtain d df where
    b: "json_body resp = Some d" and t: "transform num d = Inr df"
    and w': "w' = w\<lparr>files := (files w)(out_path cwd \<mapsto> to_csv_text df)\<rparr>"
    by blast
  from transform_Inr [OF t] obtain df0 where "aggregate df0 = Inr df" by blast
  from aggregate_Inr(2-4) [OF this] b t w'
  show "\<exists>d df. json_body resp = Some d \<and> transform num d = Inr df \<and>
         files w' (out_path cwd) = Some (to_csv_text df) \<and>
         StrL ''state'' \<notin> set (labels df) \<and>
         StrL ''pop_under5_male'' \<notin> set (labels df) \<and>
         StrL ''pop_under5_female'' \<notin> set (labels df)"
    by simp
next
  assume a: "well_formed num d \<and> status_code resp = 200 \<and> json_body resp = Some d \<and>
    is_dir w (dirname (out_path cwd))"
  then obtain df where "transform num d = Inr df"
    using transform_well_formed_rows by blast
  with a show "\<exists>w''. script num resp cwd w = (None, w'')"
    by (simp add: script_written)
qed

theorem dropped_columns_absent_witness:
  "well_formed int64_of_string fixture \<and>
   is_dir \<lparr>is_dir = (\<lambda>p. p = ''/home/acs/data''), files = Map.empty\<rparr>
     (dirname (out_path ''/home/acs'')) \<and>
   (\<exists>w'. script int64_of_string \<lparr>status_code = 200, json_body = Some fixture\<rparr> ''/home/acs''
          \<lparr>is_dir = (\<lambda>p. p = ''/home/acs/data''), files = Map.empty\<rparr> = (None, w') \<and>
     (\<exists>df. transform int64_of_string fixture = Inr df \<and>
        files w' (out_path ''/home/acs'') = Some (to_csv_text df) \<and>
        StrL ''state'' \<notin> set (labels df) \<and>
        StrL ''pop_under5_male'' \<notin> set (labels df) \<and>
        StrL ''pop_under5_female'' \<notin> set (labels df)))"
proof -
  let ?resp = "\<lparr>status_code = 200, json_body = Some fixture\<rparr>"
  let ?w = "\<lparr>is_dir = (\<lambda>p. p = ''/home/acs/data''), files = Map.empty\<rparr>"
  have dir: "is_dir ?w (dirname (out_path ''/home/acs''))"
    by (simp add: out_path_example dirname_example)
  from dropped_columns_absent [of int64_of_string ?resp "''/home/acs''" ?w _ fixture]
    well_formed_fixture dir
  obtain w' where w': "script int64_of_string ?resp ''/home/acs'' ?w = (None, w')"
    by auto
  from dropped_columns_absent [of int64_of_string ?resp "''/home/acs''" ?w w' fixture] w'
  have "\<exists>df. transform int64_of_string fixture = Inr df \<and>
        files w' (out_path ''/home/acs'') = Some (to_csv_text df) \<and>
        StrL ''state'' \<notin> set (labels df) \<and>
        StrL ''pop_under5_male'' \<notin> set (labels df) \<and>
        StrL ''pop_under5_female'' \<notin> set (labels df)"
    by auto
  with w' well_formed_fixture dir show ?thesis by blast
qed




text \<open>
  C7. Whenever the script ends normally, the file at
  os.path.join(cwd, "data", "acs_ward_under5_pop.csv"), which is
  cwd/data/acs_ward_under5_pop.csv, holds the final table as CSV and no other file has
  changed. The text is one line per record: the column labels first, then one record per row
  of the table, each with exactly one field per column (no index field); fields that need no
  quoting are written as they are, separated by commas.
\<close>

theorem csv_written:
  assumes "script num resp cwd w = (None, w')"
  shows "\<exists>d df. json_body resp = Some d \<and> transform num d = Inr df \<and>
           files w' (path_join (path_join cwd ''data'') ''acs_ward_under5_pop.csv'') =
             Some (concat (map csv_line (csv_records df))) \<and>
           (\<forall>p. p \<noteq> path_join (path_join cwd ''data'') ''acs_ward_under5_pop.csv'' \<longrightarrow>
                files w' p = files w p) \<and>
           csv_records df =
             map label_text (labels df) #
             map (\<lambda>i. map cell_text (map (\<lambda>(l, c). c ! i) (cols df))) [0..<nrows df] \<and>
           (\<forall>r \<in> set (csv_records df). length r = length (labels df)) \<and>
           (\<forall>fs. fs \<noteq> [[]] \<and> (\<forall>f \<in> set fs. \<not> needs_quote f) \<longrightarrow>
                 csv_line fs = join '','' fs @ [CHR 0x0A]) \<and>
           (cwd \<noteq> [] \<and> last cwd \<noteq> CHR ''/'' \<longrightarrow>
              path_join (path_join cwd ''data'') ''acs_ward_under5_pop.csv'' =
              cwd @ ''/data/acs_ward_under5_pop.csv'')"
proof -
  from script_None [OF assms] obtain d df where
    b: "json_body resp = Some d" and t: "transform num d = Inr df"
    and w': "w' = w\<lparr>files := (files w)(out_path cwd \<mapsto> to_csv_text df)\<rparr>"
    by blast
  have "files w' (out_path cwd) = Some (concat (map csv_line (csv_records df)))"
    by (simp add: w' to_csv_text_def)
  moreover have "\<forall>p. p \<noteq> out_path cwd \<longrightarrow> files w' p = files w p"
    by (simp add: w')
  moreover have "csv_records df =
             map label_text (labels df) #
             map (\<lambda>i. map cell_text (map (\<lambda>(l, c). c ! i) (cols df))) [0..<nrows df]"
    by (simp add: csv_records_def row_at_def)
  moreover have "cwd \<noteq> [] \<and> last cwd \<noteq> CHR ''/'' \<longrightarrow>
              out_path cwd = cwd @ ''/data/acs_ward_under5_pop.csv''"
    using out_path_absolute by blast
  ultimately show ?thesis
    using b t csv_records_width [of df] csv_line_plain
    unfolding out_path_def by blast
qed

theorem csv_written_witness:
  "\<exists>w'. script int64_of_string \<lparr>status_code = 200, json_body = Some fixture\<rparr> ''/home/acs''
          \<lparr>is_dir = (\<lambda>p. p = ''/home/acs/data''), files = Map.empty\<rparr> = (None, w') \<and>
     files w' ''/home/acs/data/acs_ward_under5_pop.csv'' =
       Some (''state_leg_district,pop_under5'' @ [CHR 0x0A] @ ''001,30'' @ [CHR 0x0A] @
             ''002,12'' @ [CHR 0x0A]) \<and>
     files w' ''/home/acs/data/other.csv'' = None \<and>
     ''/home/acs'' \<noteq> [] \<and> last ''/home/acs'' \<noteq> CHR ''/'' \<and>
     path_join (path_join ''/home/acs'' ''data'') ''acs_ward_under5_pop.csv'' =
       ''/home/acs'' @ ''/data/acs_ward_under5_pop.csv'' \<and>
     [''001'', ''30''] \<noteq> [[]] \<and> (\<forall>f \<in> set [''001'', ''30'']. \<not> needs_quote f) \<and>
     csv_line [''001'', ''30''] = join '','' [''001'', ''30''] @ [CHR 0x0A] \<and>
     (\<exists>df. transform int64_of_string fixture = Inr df \<and>
        files w' (path_join (path_join ''/home/acs'' ''data'') ''acs_ward_under5_pop.csv'') =
          Some (concat (map csv_line (csv_records df))) \<and>
        csv_records df = [[''state_leg_district'', ''pop_under5''], [''001'', ''30''],
                          [''002'', ''12'']] \<and>
        (\<forall>r \<in> set (csv_records df). length r = length (labels df)))"
proof -
  let ?w' = "\<lparr>is_dir = (\<lambda>p. p = ''/home/acs/data''),
           files = [''/home/acs/data/acs_ward_under5_pop.csv'' \<mapsto>
                    ''state_leg_district,pop_under5'' @ [CHR 0x0A] @ ''001,30'' @ [CHR 0x0A] @
                    ''002,12'' @ [CHR 0x0A]]\<rparr>"
  let ?p = "path_join (path_join ''/home/acs'' ''data'') ''acs_ward_under5_pop.csv''"
  from csv_written [OF script_fixture]
  obtain df where t: "transform int64_of_string fixture = Inr df"
    and f: "files ?w' ?p = Some (concat (map csv_line (csv_records df)))"
    and o: "\<forall>p. p \<noteq> ?p \<longrightarrow> files ?w' p = Map.empty p"
    and w: "\<forall>r \<in> set (csv_records df). length r = length (labels df)"
    and l: "\<forall>fs. fs \<noteq> [[]] \<and> (\<forall>f \<in> set fs. \<not> needs_quote f) \<longrightarrow>
                 csv_line fs = join '','' fs @ [CHR 0x0A]"
    and c: "''/home/acs'' \<noteq> [] \<and> last ''/home/acs'' \<noteq> CHR ''/'' \<longrightarrow>
              ?p = ''/home/acs'' @ ''/data/acs_ward_under5_pop.csv''"
    by auto
  have plain: "[''001'', ''30''] \<noteq> [[]]" "\<forall>f \<in> set [''001'', ''30'']. \<not> needs_quote f"
    by (simp_all add: needs_quote_def)
  with l have line: "csv_line [''001'', ''30''] = join '','' [''001'', ''30''] @ [CHR 0x0A]"
    by blast
  have cwd: "''/home/acs'' \<noteq> []" "last ''/home/acs'' \<noteq> CHR ''/''" by simp_all
  with c have p: "?p = ''/home/acs'' @ ''/data/acs_ward_under5_pop.csv''" by blast
  have "''/home/acs/data/other.csv'' \<noteq> ?p" by (simp add: p)
  with o have other: "files ?w' ''/home/acs/data/other.csv'' = None" by simp
  from t transform_fixture
  have df: "df = \<lparr>cols = [(StrL ''state_leg_district'', [Str ''001'', Str ''002'']),
                        (StrL ''pop_under5'', [Int64 30, Int64 12])],
                index = [1, 2]\<rparr>"
    by simp
  have recs: "csv_records df = [[''state_leg_district'', ''pop_under5''], [''001'', ''30''],
                          [''002'', ''12'']]"
    unfolding df by (rule csv_records_fixture)
  show ?thesis
    using script_fixture t f w line cwd p other plain recs
    by (intro exI [of _ ?w'] conjI exI [of _ df]) simp_all
qed

text \<open>
  C8. The bytes written depend on the response's content alone: two normal runs on responses
  with the same content write the same text, whatever the working directories and whatever
  the file systems held before.
\<close>

theorem output_deterministic:
  assumes "json_body r1 = json_body r2"
    and "script num r1 cwd1 w1 = (None, w1')"
    and "script num r2 cwd2 w2 = (None, w2')"
  shows "files w1' (out_path cwd1) = files w2' (out_path cwd2) \<and>
         files w1' (out_path cwd1) \<noteq> None"
proof -
  from script_None [OF assms(2)] obtain d1 df1 where
    1: "json_body r1 = Some d1" "transform num d1 = Inr df1"
       "w1' = w1\<lparr>files := (files w1)(out_path cwd1 \<mapsto> to_csv_text df1)\<rparr>"
    by blast
  from script_None [OF assms(3)] obtain d2 df2 where
    2: "json_body r2 = Some d2" "transform num d2 = Inr df2"
       "w2' = w2\<lparr>files := (files w2)(out_path cwd2 \<mapsto> to_csv_text df2)\<rparr>"
    by blast
  from assms(1) 1(1) 2(1) have "d1 = d2" by simp
  with 1(2) 2(2) have "df1 = df2" by simp
  then show ?thesis by (simp add: 1(3) 2(3))
qed

theorem output_deterministic_witness:
  "\<exists>w1' w2'.
     json_body \<lparr>status_code = 200, json_body = Some fixture\<rparr> =
     json_body \<lparr>status_code = 200, json_body = Some fixture\<rparr> \<and>
     script int64_of_string \<lparr>status_code = 200, json_body = Some fixture\<rparr> ''/home/acs''
       \<lparr>is_dir = (\<lambda>p. p = ''/home/acs/data''), files = Map.empty\<rparr> = (None, w1') \<and>
     script int64_of_string \<lparr>status_code = 200, json_body = Some fixture\<rparr> ''/srv/job/''
       \<lparr>is_dir = (\<lambda>p. True),
        files = [''/srv/job/data/acs_ward_under5_pop.csv'' \<mapsto> ''stale'']\<rparr> = (None, w2') \<and>
     files w1' (out_path ''/home/acs'') = files w2' (out_path ''/srv/job/'') \<and>
     files w1' (out_path ''/home/acs'') \<noteq> None"
  using output_deterministic [OF refl script_fixture script_fixture_again]
    script_fixture script_fixture_again
  by blast

text \<open>
  C9. On a well-formed payload the rows keep the payload's order: row \<open>i\<close> of the final
  table carries the pandas row label \<open>i + 1\<close>, is computed from payload row \<open>i + 1\<close> alone
  (its retained cells and the sum of its two counts), and is record \<open>i + 1\<close> of the CSV
  text, the header being record 0.
\<close>

theorem row_order:
  assumes "well_formed num d" and "i < length d - 1"
  shows "\<exists>df. transform num d = Inr df \<and> index df = [1..<length d] \<and> i < nrows df \<and>
           index df ! i = Suc i \<and>
           row_at df i =
             map (\<lambda>j. Str (d ! Suc i ! j)) (filter (\<lambda>j. hd d ! j \<noteq> ''state'') [2..<length (hd d)]) @
             [Int64 (the (num (d ! Suc i ! 0)) + the (num (d ! Suc i ! 1)))] \<and>
           csv_records df ! Suc i = map cell_text (row_at df i)"
proof -
  from transform_well_formed_rows [OF assms(1)] obtain df where
    t: "transform num d = Inr df" and ix: "index df = [1..<length d]"
    and cs: "cols df = map (\<lambda>j. (StrL (hd d ! j), raw_col d j))
                       (filter (\<lambda>j. hd d ! j \<noteq> ''state'') [2..<length (hd d)]) @
                     [(StrL ''pop_under5'',
                       map (\<lambda>r. Int64 (the (num (r ! 0)) + the (num (r ! 1)))) (tl d))]"
    by blast
  from assms(2) have i: "i < length (tl d)" by simp
  then have r: "tl d ! i = d ! Suc i" by (simp add: nth_tl)
  have n: "i < nrows df" using assms(2) by (simp add: nrows_def ix)
  have "index df ! i = Suc i" using assms(2) by (simp add: ix)
  moreover have "row_at df i =
             map (\<lambda>j. Str (d ! Suc i ! j)) (filter (\<lambda>j. hd d ! j \<noteq> ''state'') [2..<length (hd d)]) @
             [Int64 (the (num (d ! Suc i ! 0)) + the (num (d ! Suc i ! 1)))]"
    using i by (simp add: row_at_def cs raw_col_def comp_def r)
  moreover have "csv_records df ! Suc i = map cell_text (row_at df i)"
    using n by (simp add: csv_records_def)
  ultimately show ?thesis using t ix n by blast
qed

theorem row_order_witness:
  "well_formed int64_of_string fixture \<and> (1::nat) < length fixture - 1 \<and>
   (\<exists>df. transform int64_of_string fixture = Inr df \<and> index df ! 1 = Suc 1 \<and>
      row_at df 1 = [Str ''002'', Int64 12] \<and>
      csv_records df ! Suc 1 = map cell_text (row_at df 1))"
proof -
  have len: "(1::nat) < length fixture - 1" by (simp add: fixture_def)
  have "map (\<lambda>j. Str (fixture ! Suc 1 ! j))
          (filter (\<lambda>j. hd fixture ! j \<noteq> ''state'') [2..<length (hd fixture)]) @
        [Int64 (the (int64_of_string (fixture ! Suc 1 ! 0)) +
                the (int64_of_string (fixture ! Suc 1 ! 1)))] = [Str ''002'', Int64 12]"
    by code_simp
  with row_order [OF well_formed_fixture len] well_formed_fixture len
  show ?thesis by auto
qed

text \<open>
  C10. On a well-formed payload the columns of the final table are the header's names other
  than the two variable codes and state, in the header's order, followed by pop_under5 as the
  last column; the header record of the CSV text lists them in that order.
\<close>

theorem column_order:
  assumes "well_formed num d"
  shows "\<exists>df. transform num d = Inr df \<and>
           labels df =
             map StrL (filter (\<lambda>h. h \<notin> {''B01001_003E'', ''B01001_027E'', ''state''}) (hd d)) @
             [StrL ''pop_under5''] \<and>
           hd (csv_records df) =
             filter (\<lambda>h. h \<notin> {''B01001_003E'', ''B01001_027E'', ''state''}) (hd d) @
             [''pop_under5'']"
proof -
  from transform_well_formed_rows [OF assms] obtain df where
    t: "transform num d = Inr df"
    and cs: "cols df = map (\<lambda>j. (StrL (hd d ! j), raw_col d j))
                       (filter (\<lambda>j. hd d ! j \<noteq> ''state'') [2..<length (hd d)]) @
                     [(StrL ''pop_under5'',
                       map (\<lambda>r. Int64 (the (num (r ! 0)) + the (num (r ! 1)))) (tl d))]"
    by blast
  have "labels df =
        map StrL (map (\<lambda>j. hd d ! j) (filter (\<lambda>j. hd d ! j \<noteq> ''state'') [2..<length (hd d)])) @
        [StrL ''pop_under5'']"
    by (simp add: labels_def cs comp_def)
  then have l: "labels df =
        map StrL (filter (\<lambda>h. h \<notin> {''B01001_003E'', ''B01001_027E'', ''state''}) (hd d)) @
        [StrL ''pop_under5'']"
    by (simp only: kept_names [of "hd d" "\<lambda>h. h \<noteq> ''state''" 2] well_formed_kept [OF assms])
  then have "hd (csv_records df) =
             filter (\<lambda>h. h \<notin> {''B01001_003E'', ''B01001_027E'', ''state''}) (hd d) @
             [''pop_under5'']"
    by (simp add: csv_records_def comp_def)
  with t l show ?thesis by blast
qed

theorem column_order_witness:
  "well_formed int64_of_string fixture \<and>
   (\<exists>df. transform int64_of_string fixture = Inr df \<and>
      labels df = [StrL ''state_leg_district'', StrL ''pop_under5''] \<and>
      hd (csv_records df) = [''state_leg_district'', ''pop_under5''])"
proof -
  have "filter (\<lambda>h. h \<notin> {''B01001_003E'', ''B01001_027E'', ''state''}) (hd fixture) =
        [''state_leg_district'']"
    by (simp add: fixture_def)
  with column_order [OF well_formed_fixture] well_formed_fixture
  show ?thesis by auto
qed

end
